theory Spec2Isabelle
  imports Main "HOL-Library.Word"
begin

unbundle bit_operations_syntax

section \<open>Data model of ports/rp2/machine\_pwm.c\<close>

text \<open>
  The port runs on a 32-bit core: \<open>uint32_t\<close> is a 32-bit word, \<open>uint64_t\<close> a 64-bit
  word, and \<open>mp_int_t\<close> (the pointer-sized signed integer of the runtime) a 32-bit word
  read in two's complement by \<open>sint\<close>.  All arithmetic below is the arithmetic of these
  words: \<open>+\<close> and \<open>*\<close> wrap, \<open>div\<close> and \<open>mod\<close> are unsigned.
\<close>

type_synonym uint8_t = "8 word"
type_synonym uint16_t = "16 word"
type_synonym uint32_t = "32 word"
type_synonym uint64_t = "64 word"
type_synonym mp_int_t = "32 word"

text \<open>\<open>struct _machine_pwm_obj_t\<close>: the identity of one channel of one slice.\<close>

record machine_pwm_obj_t =
  slice :: uint8_t
  channel :: uint8_t

definition PWM_CHAN_A :: uint8_t where
  "PWM_CHAN_A = 0"

definition PWM_CHAN_B :: uint8_t where
  "PWM_CHAN_B = 1"

text \<open>The static table \<open>machine_pwm_obj\<close>: one object per slice and channel.\<close>

definition machine_pwm_obj :: "machine_pwm_obj_t list" where
  "machine_pwm_obj =
     [\<lparr>slice = 0, channel = PWM_CHAN_A\<rparr>, \<lparr>slice = 0, channel = PWM_CHAN_B\<rparr>,
      \<lparr>slice = 1, channel = PWM_CHAN_A\<rparr>, \<lparr>slice = 1, channel = PWM_CHAN_B\<rparr>,
      \<lparr>slice = 2, channel = PWM_CHAN_A\<rparr>, \<lparr>slice = 2, channel = PWM_CHAN_B\<rparr>,
      \<lparr>slice = 3, channel = PWM_CHAN_A\<rparr>, \<lparr>slice = 3, channel = PWM_CHAN_B\<rparr>,
      \<lparr>slice = 4, channel = PWM_CHAN_A\<rparr>, \<lparr>slice = 4, channel = PWM_CHAN_B\<rparr>,
      \<lparr>slice = 5, channel = PWM_CHAN_A\<rparr>, \<lparr>slice = 5, channel = PWM_CHAN_B\<rparr>,
      \<lparr>slice = 6, channel = PWM_CHAN_A\<rparr>, \<lparr>slice = 6, channel = PWM_CHAN_B\<rparr>,
      \<lparr>slice = 7, channel = PWM_CHAN_A\<rparr>, \<lparr>slice = 7, channel = PWM_CHAN_B\<rparr>]"

text \<open>
  The registers of one slice, \<open>pwm_hw->slice[i]\<close>.  The source reads and writes \<open>div\<close>,
  \<open>top\<close> and \<open>cc\<close> as 32-bit registers; \<open>cc\<close> holds the compare value of channel A in
  its low half and that of channel B in its high half.  The fields carry the suffix
  \<open>_reg\<close> because \<open>div\<close> and \<open>top\<close> are constants of HOL.  The enable bit of \<open>csr\<close> is
  the boolean \<open>enabled\<close> of the specification's data model.
\<close>

record pwm_slice_hw_t =
  enabled :: bool
  div_reg :: uint32_t
  cc_reg :: uint32_t
  top_reg :: uint32_t

text \<open>The register block \<open>pwm_hw\<close>: one set of registers per slice index.\<close>

type_synonym pwm_hw_t = "uint8_t \<Rightarrow> pwm_slice_hw_t"

text \<open>
  \<open>ValueError\<close> is what \<open>mp_raise_ValueError\<close> raises (it does not return).
  \<open>DivisionByZero\<close> marks an execution in which the C code divides by zero, which the
  language leaves undefined; the state paired with it has no meaning.
\<close>

datatype error = ValueError string | DivisionByZero

section \<open>Constants and helpers of the hardware library\<close>

definition TOP_MAX :: uint32_t where
  "TOP_MAX = 65534"

text \<open>
  Modelled from the spec: the bit positions \<open>PWM_CH0_CC_A_LSB\<close> and
  \<open>PWM_CH0_CC_B_LSB\<close> of the hardware headers, which are not part of this file.  The
  compare register has one 16-bit half per channel (\<open>compareA\<close>, \<open>compareB\<close>); A is the
  low half and B the high half.
\<close>

definition PWM_CH0_CC_A_LSB :: nat where
  "PWM_CH0_CC_A_LSB = 0"

definition PWM_CH0_CC_B_LSB :: nat where
  "PWM_CH0_CC_B_LSB = 16"

text \<open>
  Modelled from the spec: \<open>pwm_set_chan_level\<close> of the hardware library, which writes a
  16-bit compare value into the channel's half (A or B) of the slice's compare register
  and leaves the other half alone.  The level is a 16-bit parameter, so only the low 16
  bits of the argument are stored.
\<close>

definition pwm_set_chan_level :: "uint8_t \<Rightarrow> uint8_t \<Rightarrow> uint32_t \<Rightarrow> pwm_hw_t \<Rightarrow> pwm_hw_t" where
  "pwm_set_chan_level sl chan level hw =
     (let lsb = (if chan \<noteq> 0 then PWM_CH0_CC_B_LSB else PWM_CH0_CC_A_LSB);
          old = cc_reg (hw sl);
          new = (old AND NOT (push_bit lsb 0xffff)) OR push_bit lsb (level AND 0xffff)
      in hw(sl := (hw sl)\<lparr>cc_reg := new\<rparr>))"

text \<open>
  Modelled from the spec: \<open>pwm_set_enabled\<close> of the hardware library, which switches
  the output of a slice on or off.
\<close>

definition pwm_set_enabled :: "uint8_t \<Rightarrow> bool \<Rightarrow> pwm_hw_t \<Rightarrow> pwm_hw_t" where
  "pwm_set_enabled sl en hw = hw(sl := (hw sl)\<lparr>enabled := en\<rparr>)"

section \<open>The operations\<close>

text \<open>
  Every operation takes the value of \<open>clock_get_hz(clk_sys)\<close> as its first argument
  where the source reads it.  An operation that writes registers returns its outcome
  paired with the register block at the moment it returns or raises.  A getter returns
  the value of the expression that the source hands to \<open>MP_OBJ_NEW_SMALL_INT\<close>, at the
  C type of that expression; the boxing of that value into an object is not part of
  this file.
\<close>

definition mp_machine_pwm_deinit :: "machine_pwm_obj_t \<Rightarrow> pwm_hw_t \<Rightarrow> pwm_hw_t" where
  "mp_machine_pwm_deinit self hw = pwm_set_enabled (slice self) False hw"

definition mp_machine_pwm_freq_get :: "uint32_t \<Rightarrow> machine_pwm_obj_t \<Rightarrow> pwm_hw_t \<Rightarrow> error + uint32_t" where
  "mp_machine_pwm_freq_get source_hz self hw =
     (let div16 = div_reg (hw (slice self));
          top' = top_reg (hw (slice self))
      in if div16 = 0 \<or> top' = 0 then Inl DivisionByZero
         else Inr (16 * source_hz div div16 div top'))"

text \<open>
  One pass through the body of the \<open>for (;;)\<close> loop of \<open>mp_machine_pwm_freq_set\<close> on the
  pair \<open>(div16_top, top)\<close>: \<open>Some\<close> of the updated pair when one of the three branches
  is taken, \<open>None\<close> for \<open>break\<close>.  The local variable \<open>top\<close> of the source is written
  \<open>top'\<close> throughout, \<open>top\<close> being a constant of HOL.
\<close>

definition freq_step :: "uint32_t \<times> uint32_t \<Rightarrow> (uint32_t \<times> uint32_t) option" where
  "freq_step s =
     (case s of (div16_top, top') \<Rightarrow>
        if div16_top \<ge> 16 * 5 \<and> div16_top mod 5 = 0 \<and> top' * 5 \<le> TOP_MAX
          then Some (div16_top div 5, top' * 5)
        else if div16_top \<ge> 16 * 3 \<and> div16_top mod 3 = 0 \<and> top' * 3 \<le> TOP_MAX
          then Some (div16_top div 3, top' * 3)
        else if div16_top \<ge> 16 * 2 \<and> top' * 2 \<le> TOP_MAX
          then Some (div16_top div 2, top' * 2)
        else None)"

text \<open>The loop: passes are made until one of them breaks.\<close>

function freq_loop :: "uint32_t \<times> uint32_t \<Rightarrow> uint32_t \<times> uint32_t" where
  "freq_loop s = (case freq_step s of None \<Rightarrow> s | Some s' \<Rightarrow> freq_loop s')"
  by pat_completeness auto
termination
proof (relation "measure (\<lambda>s. unat (fst s))")
  show "wf (measure (\<lambda>s::uint32_t \<times> uint32_t. unat (fst s)))"
    by simp
next
  fix s s' :: "uint32_t \<times> uint32_t"
  assume step: "freq_step s = Some s'"
  have shrink: "unat (d div k) < unat d" if "16 * k \<le> d" "k = 5 \<or> k = 3 \<or> k = 2"
    for d k :: uint32_t
    using that by (auto simp: word_le_nat_alt unat_div)
  from step have "unat (fst s') < unat (fst s)"
    by (cases s) (auto simp: freq_step_def shrink split: if_splits)
  then show "(s', s) \<in> measure (\<lambda>s. unat (fst s))"
    by simp
qed

declare freq_loop.simps [simp del]

text \<open>
  The same loop with a bound on the number of passes through its body, the pass that
  breaks included: \<open>None\<close> when the bound is used up before the loop has ended.
\<close>

primrec freq_loop_fuel :: "nat \<Rightarrow> uint32_t \<times> uint32_t \<Rightarrow> (uint32_t \<times> uint32_t) option" where
  "freq_loop_fuel 0 s = None"
| "freq_loop_fuel (Suc n) s =
     (case freq_step s of None \<Rightarrow> Some s | Some s' \<Rightarrow> freq_loop_fuel n s')"

definition mp_machine_pwm_freq_set ::
    "uint32_t \<Rightarrow> machine_pwm_obj_t \<Rightarrow> mp_int_t \<Rightarrow> pwm_hw_t \<Rightarrow> (error + unit) \<times> pwm_hw_t" where
  "mp_machine_pwm_freq_set source_hz self freq hw =
     (if freq = 0 then (Inl DivisionByZero, hw)
      else
        case freq_loop (16 * source_hz div freq, 1) of (div16_top, top') \<Rightarrow>
          if div16_top < 16 then (Inl (ValueError ''freq too large''), hw)
          else if div16_top \<ge> 256 * 16 then (Inl (ValueError ''freq too small''), hw)
          else (Inr (),
                hw(slice self := (hw (slice self))\<lparr>div_reg := div16_top, top_reg := top'\<rparr>)))"

text \<open>The channel's half of a compare register, as both duty getters read it.\<close>

definition chan_cc :: "uint8_t \<Rightarrow> uint32_t \<Rightarrow> uint32_t" where
  "chan_cc chan cc =
     drop_bit (if chan \<noteq> 0 then PWM_CH0_CC_B_LSB else PWM_CH0_CC_A_LSB) cc AND 0xffff"

definition mp_machine_pwm_duty_get_u16 :: "machine_pwm_obj_t \<Rightarrow> pwm_hw_t \<Rightarrow> error + uint32_t" where
  "mp_machine_pwm_duty_get_u16 self hw =
     (let top' = top_reg (hw (slice self));
          cc = cc_reg (hw (slice self));
          cc = chan_cc (channel self) cc
      in if top' + 1 = 0 then Inl DivisionByZero
         else Inr (cc * 65535 div (top' + 1)))"

definition mp_machine_pwm_duty_set_u16 :: "machine_pwm_obj_t \<Rightarrow> mp_int_t \<Rightarrow> pwm_hw_t \<Rightarrow> pwm_hw_t" where
  "mp_machine_pwm_duty_set_u16 self duty_u16 hw =
     (let top' = top_reg (hw (slice self));
          cc = duty_u16 * (top' + 1) div 65535;
          hw = pwm_set_chan_level (slice self) (channel self) cc hw
      in pwm_set_enabled (slice self) True hw)"

definition mp_machine_pwm_duty_get_ns :: "uint32_t \<Rightarrow> machine_pwm_obj_t \<Rightarrow> pwm_hw_t \<Rightarrow> error + uint64_t" where
  "mp_machine_pwm_duty_get_ns source_hz self hw =
     (if div_reg (hw (slice self)) = 0 then Inl DivisionByZero
      else
        let slice_hz = 16 * source_hz div div_reg (hw (slice self));
            cc = cc_reg (hw (slice self));
            cc = chan_cc (channel self) cc
        in if slice_hz = 0 then Inl DivisionByZero
           else Inr ((ucast cc :: uint64_t) * 1000000000 div ucast slice_hz))"

definition mp_machine_pwm_duty_set_ns ::
    "uint32_t \<Rightarrow> machine_pwm_obj_t \<Rightarrow> mp_int_t \<Rightarrow> pwm_hw_t \<Rightarrow> (error + unit) \<times> pwm_hw_t" where
  "mp_machine_pwm_duty_set_ns source_hz self duty_ns hw =
     (if div_reg (hw (slice self)) = 0 then (Inl DivisionByZero, hw)
      else
        let slice_hz = 16 * source_hz div div_reg (hw (slice self));
            cc = (ucast ((scast duty_ns :: uint64_t) * ucast slice_hz div 1000000000) :: uint32_t)
        in if cc > 65535 then (Inl (ValueError ''duty larger than period''), hw)
           else
             let hw = pwm_set_chan_level (slice self) (channel self) cc hw
             in (Inr (), pwm_set_enabled (slice self) True hw))"

section \<open>Register blocks and objects used to instantiate the theorems\<close>

text \<open>
  A register block in which every slice has divider 1.0 (\<open>div = 16\<close>), the largest
  counter period, both compare values 0 and its output off.
\<close>

definition hw_idle :: pwm_hw_t where
  "hw_idle = (\<lambda>_. \<lparr>enabled = False, div_reg = 16, cc_reg = 0, top_reg = 65535\<rparr>)"

text \<open>Channel A of slice 0 and channel B of slice 1, as they stand in the static table.\<close>

definition pwm0A :: machine_pwm_obj_t where
  "pwm0A = \<lparr>slice = 0, channel = PWM_CHAN_A\<rparr>"

definition pwm1B :: machine_pwm_obj_t where
  "pwm1B = \<lparr>slice = 1, channel = PWM_CHAN_B\<rparr>"

text \<open>
  A register block in which every slice has the given \<open>div\<close> and \<open>top\<close>, both
  compare values 0 and its output off.
\<close>

definition hw_regs :: "uint32_t \<Rightarrow> uint32_t \<Rightarrow> pwm_hw_t" where
  "hw_regs d t = (\<lambda>_. \<lparr>enabled = False, div_reg = d, cc_reg = 0, top_reg = t\<rparr>)"

text \<open>
  The ranges of the data model: \<open>top\<close> in \<open>[1, 65534]\<close> and \<open>div16\<close> in
  \<open>[16, 4095]\<close>.
\<close>

definition slice_regs_valid :: "pwm_slice_hw_t \<Rightarrow> bool" where
  "slice_regs_valid r \<longleftrightarrow>
     1 \<le> unat (top_reg r) \<and> unat (top_reg r) \<le> 65534 \<and>
     16 \<le> unat (div_reg r) \<and> unat (div_reg r) \<le> 4095"

section \<open>The solver and the conversions in the words of the specification\<close>

text \<open>
  The factor extraction as the specification words it, on unbounded naturals: on each
  pass try 5, then 3, then 2, and extract a factor only if it divides \<open>div16_top\<close>
  exactly, \<open>div16_top\<close> is at least 16 times the factor, and \<open>top\<close> times the factor
  is at most 65534.
\<close>

definition exact_step :: "nat \<times> nat \<Rightarrow> (nat \<times> nat) option" where
  "exact_step s =
     (case s of (d, t) \<Rightarrow>
        if 5 dvd d \<and> 16 * 5 \<le> d \<and> t * 5 \<le> 65534 then Some (d div 5, t * 5)
        else if 3 dvd d \<and> 16 * 3 \<le> d \<and> t * 3 \<le> 65534 then Some (d div 3, t * 3)
        else if 2 dvd d \<and> 16 * 2 \<le> d \<and> t * 2 \<le> 65534 then Some (d div 2, t * 2)
        else None)"

function exact_loop :: "nat \<times> nat \<Rightarrow> nat \<times> nat" where
  "exact_loop s = (case exact_step s of None \<Rightarrow> s | Some s' \<Rightarrow> exact_loop s')"
  by pat_completeness auto
termination
  by (relation "measure fst") (auto simp: exact_step_def split: if_splits)

declare exact_loop.simps [simp del]

text \<open>
  The same extraction with the one difference the source shows: the factor 2 is
  extracted whenever \<open>div16_top \<ge> 32\<close> and \<open>2 * top \<le> 65534\<close>, whether or not
  \<open>div16_top\<close> is even, and the halving rounds down.
\<close>

definition solver_step :: "nat \<times> nat \<Rightarrow> (nat \<times> nat) option" where
  "solver_step s =
     (case s of (d, t) \<Rightarrow>
        if 5 dvd d \<and> 16 * 5 \<le> d \<and> t * 5 \<le> 65534 then Some (d div 5, t * 5)
        else if 3 dvd d \<and> 16 * 3 \<le> d \<and> t * 3 \<le> 65534 then Some (d div 3, t * 3)
        else if 16 * 2 \<le> d \<and> t * 2 \<le> 65534 then Some (d div 2, t * 2)
        else None)"

function solver_loop :: "nat \<times> nat \<Rightarrow> nat \<times> nat" where
  "solver_loop s = (case solver_step s of None \<Rightarrow> s | Some s' \<Rightarrow> solver_loop s')"
  by pat_completeness auto
termination
  by (relation "measure fst") (auto simp: solver_step_def split: if_splits)

declare solver_loop.simps [simp del]

text \<open>
  The slice frequency \<open>floor(16 * sourceHz / div16)\<close> and the compare value
  \<open>floor(duty_ns * sliceHz / 1_000_000_000)\<close> of the specification, on unbounded
  naturals.
\<close>

definition spec_slice_hz :: "nat \<Rightarrow> nat \<Rightarrow> nat" where
  "spec_slice_hz source_hz div16 = 16 * source_hz div div16"

definition spec_compare_ns :: "nat \<Rightarrow> nat \<Rightarrow> nat" where
  "spec_compare_ns duty_ns slice_hz = duty_ns * slice_hz div 1000000000"

section \<open>The factor loop\<close>

lemma pwm_objects_in_table: "pwm0A = machine_pwm_obj ! 0" "pwm1B = machine_pwm_obj ! 3"
  by (simp_all add: pwm0A_def pwm1B_def machine_pwm_obj_def)

lemma unat_top_mult:
  fixes t :: uint32_t
  assumes "unat t \<le> 65534"
  shows "unat (t * 5) = unat t * 5" "unat (t * 3) = unat t * 3" "unat (t * 2) = unat t * 2"
  using assms by (simp_all add: unat_word_ariths)

text \<open>
  While \<open>top\<close> is at most 65534 its products with 5, 3 and 2 do not wrap, so a pass that
  does not break at least doubles \<open>top\<close> and keeps it at most 65534.
\<close>

lemma freq_step_top:
  assumes "freq_step (d, t) = Some (d', t')" "unat t \<le> 65534"
  shows "unat t' \<le> 65534 \<and> 2 * unat t \<le> unat t'"
proof -
  from assms(1) consider
      "t' = t * 5" "t * 5 \<le> TOP_MAX"
    | "t' = t * 3" "t * 3 \<le> TOP_MAX"
    | "t' = t * 2" "t * 2 \<le> TOP_MAX"
    by (simp add: freq_step_def split: if_splits)
  then show ?thesis
  proof cases
    case 1
    then show ?thesis using unat_top_mult(1) [OF assms(2)]
      by (simp add: word_le_nat_alt TOP_MAX_def)
  next
    case 2
    then show ?thesis using unat_top_mult(2) [OF assms(2)]
      by (simp add: word_le_nat_alt TOP_MAX_def)
  next
    case 3
    then show ?thesis using unat_top_mult(3) [OF assms(2)]
      by (simp add: word_le_nat_alt TOP_MAX_def)
  qed
qed

lemma freq_loop_top:
  assumes "1 \<le> unat (snd s)" "unat (snd s) \<le> 65534"
  shows "1 \<le> unat (snd (freq_loop s)) \<and> unat (snd (freq_loop s)) \<le> 65534"
  using assms
proof (induction s rule: freq_loop.induct)
  case (1 s)
  show ?case
  proof (cases "freq_step s")
    case None
    with "1.prems" show ?thesis by (simp add: freq_loop.simps)
  next
    case (Some s')
    then have "freq_step (fst s, snd s) = Some (fst s', snd s')" by simp
    from freq_step_top [OF this "1.prems"(2)] "1.prems"(1)
    have "1 \<le> unat (snd s')" "unat (snd s') \<le> 65534" by auto
    from "1.IH" [OF Some this] Some show ?thesis by (simp add: freq_loop.simps)
  qed
qed

lemma freq_loop_fuel_enough:
  assumes "1 \<le> unat t" "unat t \<le> 65534" "65534 < 2 ^ n * unat t"
  shows "freq_loop_fuel n (d, t) = Some (freq_loop (d, t))"
  using assms
proof (induction n arbitrary: d t)
  case 0
  then show ?case by simp
next
  case (Suc n)
  show ?case
  proof (cases "freq_step (d, t)")
    case None
    then show ?thesis by (simp add: freq_loop.simps)
  next
    case (Some s')
    obtain d' t' where s': "s' = (d', t')" by (cases s')
    from freq_step_top [OF Some [unfolded s'] Suc.prems(2)]
    have t': "unat t' \<le> 65534" "2 * unat t \<le> unat t'" by auto
    have "2 ^ n * (2 * unat t) \<le> 2 ^ n * unat t'" using t'(2) by (rule mult_le_mono2)
    moreover have "2 ^ n * (2 * unat t) = 2 ^ Suc n * unat t" by simp
    ultimately have "65534 < 2 ^ n * unat t'" using Suc.prems(3) by linarith
    moreover from t'(2) Suc.prems(1) have "1 \<le> unat t'" by simp
    ultimately have "freq_loop_fuel n (d', t') = Some (freq_loop (d', t'))"
      using t'(1) by (intro Suc.IH)
    with Some s' show ?thesis by (simp add: freq_loop.simps [of "(d, t)"])
  qed
qed

text \<open>Sixteen passes always suffice: fifteen doublings of \<open>top\<close> and the pass that breaks.\<close>

lemma freq_loop_sixteen_passes: "freq_loop_fuel 16 (d, 1) = Some (freq_loop (d, 1))"
  by (rule freq_loop_fuel_enough) simp_all

text \<open>
  C8.  For every source clock and every requested frequency the factor loop of
  \<open>mp_machine_pwm_freq_set\<close> ends, and it ends within 20 passes through its body:
  run with a budget of 20 passes, the loop reaches its \<open>break\<close> and yields the very
  pair \<open>(div16_top, top)\<close> that the unbounded loop yields.
\<close>

theorem freq_loop_at_most_20_passes:
  "freq_loop_fuel 20 (16 * source_hz div freq, 1) = Some (freq_loop (16 * source_hz div freq, 1))"
  by (rule freq_loop_fuel_enough) simp_all

section \<open>Setting the frequency\<close>

text \<open>
  Once the requested frequency is not zero, \<open>mp_machine_pwm_freq_set\<close> is decided by
  the pair the loop ends with.
\<close>

lemma freq_set_cases:
  assumes "freq \<noteq> 0"
  obtains d t where "freq_loop (16 * source_hz div freq, 1) = (d, t)"
    "mp_machine_pwm_freq_set source_hz self freq hw =
       (if d < 16 then (Inl (ValueError ''freq too large''), hw)
        else if 256 * 16 \<le> d then (Inl (ValueError ''freq too small''), hw)
        else (Inr (), hw(slice self := (hw (slice self))\<lparr>div_reg := d, top_reg := t\<rparr>)))"
  using assms by (cases "freq_loop (16 * source_hz div freq, 1)") (simp add: mp_machine_pwm_freq_set_def)

text \<open>
  C2.  \<open>mp_machine_pwm_freq_set\<close> raises the value error "freq too large" exactly when
  the \<open>div16\<close> left by the factor loop is below 16, and the value error "freq too
  small" exactly when it is at least \<open>256 * 16 = 4096\<close>.  Whenever the call does not
  succeed, no register has been written: the register block is the one the call
  started with.  (The loop is reached for every requested frequency other than 0.)
\<close>

theorem freq_set_error_iff:
  assumes "freq \<noteq> 0"
  shows "(fst (mp_machine_pwm_freq_set source_hz self freq hw) = Inl (ValueError ''freq too large'')
            \<longleftrightarrow> unat (fst (freq_loop (16 * source_hz div freq, 1))) < 16) \<and>
         (fst (mp_machine_pwm_freq_set source_hz self freq hw) = Inl (ValueError ''freq too small'')
            \<longleftrightarrow> 256 * 16 \<le> unat (fst (freq_loop (16 * source_hz div freq, 1)))) \<and>
         (fst (mp_machine_pwm_freq_set source_hz self freq hw) \<noteq> Inr ()
            \<longrightarrow> snd (mp_machine_pwm_freq_set source_hz self freq hw) = hw)"
proof -
  from assms obtain d t where dt: "freq_loop (16 * source_hz div freq, 1) = (d, t)"
    and r: "mp_machine_pwm_freq_set source_hz self freq hw =
       (if d < 16 then (Inl (ValueError ''freq too large''), hw)
        else if 256 * 16 \<le> d then (Inl (ValueError ''freq too small''), hw)
        else (Inr (), hw(slice self := (hw (slice self))\<lparr>div_reg := d, top_reg := t\<rparr>)))"
    by (rule freq_set_cases)
  have lt: "d < 16 \<longleftrightarrow> unat d < 16" by (simp add: word_less_nat_alt)
  have ge: "256 * 16 \<le> d \<longleftrightarrow> 256 * 16 \<le> unat d" by (simp add: word_le_nat_alt)
  show ?thesis unfolding r dt using lt ge by auto
qed

text \<open>
  The theorem at a 125 MHz clock and a request of 1 Hz: the loop ends with
  \<open>div16 = 32000\<close>, the call raises "freq too small" and the registers are untouched.
\<close>

theorem freq_set_error_iff_witness:
  "(1 :: mp_int_t) \<noteq> 0 \<and>
   mp_machine_pwm_freq_set 125000000 pwm0A 1 hw_idle = (Inl (ValueError ''freq too small''), hw_idle) \<and>
   unat (fst (freq_loop (16 * 125000000 div 1, 1))) = 32000"
proof -
  have nz: "(1 :: mp_int_t) \<noteq> 0" by simp
  have loop: "freq_loop (16 * 125000000 div 1, 1) = (32000, 62500)"
    by (simp add: freq_loop.simps freq_step_def TOP_MAX_def)
  from freq_set_error_iff [OF nz, of 125000000 pwm0A hw_idle] loop
  show ?thesis by (simp add: prod_eq_iff)
qed

text \<open>
  C4.  After a successful \<open>mp_machine_pwm_freq_set\<close> the registers of the slice hold
  \<open>top\<close> in \<open>[1, 65534]\<close> and \<open>div16\<close> in \<open>[16, 4095]\<close>, and the registers of
  every other slice are as before.  No other operation writes \<open>div\<close> or \<open>top\<close>: the
  two duty setters and \<open>deinit\<close> leave both registers of every slice as they found
  them, so values outside these ranges are never committed.
\<close>

theorem freq_set_commits_valid:
  assumes "mp_machine_pwm_freq_set source_hz self freq hw = (Inr (), hw')"
  shows "slice_regs_valid (hw' (slice self)) \<and>
         (\<forall>sl. sl \<noteq> slice self \<longrightarrow> hw' sl = hw sl) \<and>
         (\<forall>sl. div_reg (mp_machine_pwm_duty_set_u16 self duty_u16 hw sl) = div_reg (hw sl) \<and>
               top_reg (mp_machine_pwm_duty_set_u16 self duty_u16 hw sl) = top_reg (hw sl)) \<and>
         (\<forall>sl. div_reg (snd (mp_machine_pwm_duty_set_ns source_hz self duty_ns hw) sl) = div_reg (hw sl) \<and>
               top_reg (snd (mp_machine_pwm_duty_set_ns source_hz self duty_ns hw) sl) = top_reg (hw sl)) \<and>
         (\<forall>sl. div_reg (mp_machine_pwm_deinit self hw sl) = div_reg (hw sl) \<and>
               top_reg (mp_machine_pwm_deinit self hw sl) = top_reg (hw sl))"
proof -
  from assms have nz: "freq \<noteq> 0" by (auto simp: mp_machine_pwm_freq_set_def)
  then obtain d t where dt: "freq_loop (16 * source_hz div freq, 1) = (d, t)"
    and r: "mp_machine_pwm_freq_set source_hz self freq hw =
       (if d < 16 then (Inl (ValueError ''freq too large''), hw)
        else if 256 * 16 \<le> d then (Inl (ValueError ''freq too small''), hw)
        else (Inr (), hw(slice self := (hw (slice self))\<lparr>div_reg := d, top_reg := t\<rparr>)))"
    by (rule freq_set_cases)
  from assms r have d: "\<not> d < 16" "\<not> 256 * 16 \<le> d"
    and hw': "hw' = hw(slice self := (hw (slice self))\<lparr>div_reg := d, top_reg := t\<rparr>)"
    by (auto split: if_splits)
  from d have "16 \<le> unat d" "unat d \<le> 4095"
    by (simp_all add: word_less_nat_alt word_le_nat_alt)
  moreover from freq_loop_top [of "(16 * source_hz div freq, 1)"] dt
  have "1 \<le> unat t" "unat t \<le> 65534" by simp_all
  ultimately have "slice_regs_valid (hw' (slice self))"
    by (simp add: hw' slice_regs_valid_def)
  moreover have "\<forall>sl. sl \<noteq> slice self \<longrightarrow> hw' sl = hw sl" by (simp add: hw')
  moreover have "div_reg (mp_machine_pwm_duty_set_u16 self duty_u16 hw sl) = div_reg (hw sl) \<and>
               top_reg (mp_machine_pwm_duty_set_u16 self duty_u16 hw sl) = top_reg (hw sl)" for sl
    by (simp add: mp_machine_pwm_duty_set_u16_def pwm_set_chan_level_def pwm_set_enabled_def Let_def)
  moreover have "div_reg (snd (mp_machine_pwm_duty_set_ns source_hz self duty_ns hw) sl) = div_reg (hw sl) \<and>
               top_reg (snd (mp_machine_pwm_duty_set_ns source_hz self duty_ns hw) sl) = top_reg (hw sl)" for sl
    by (simp add: mp_machine_pwm_duty_set_ns_def pwm_set_chan_level_def pwm_set_enabled_def Let_def)
  moreover have "div_reg (mp_machine_pwm_deinit self hw sl) = div_reg (hw sl) \<and>
               top_reg (mp_machine_pwm_deinit self hw sl) = top_reg (hw sl)" for sl
    by (simp add: mp_machine_pwm_deinit_def pwm_set_enabled_def)
  ultimately show ?thesis by blast
qed

text \<open>
  The theorem at a 125 MHz clock and a request of 1 kHz on channel B of slice 1: the
  call commits \<open>div16 = 32\<close> and \<open>top = 62500\<close>.
\<close>

theorem freq_set_commits_valid_witness:
  "mp_machine_pwm_freq_set 125000000 pwm1B 1000 hw_idle =
     (Inr (), hw_idle(1 := \<lparr>enabled = False, div_reg = 32, cc_reg = 0, top_reg = 62500\<rparr>)) \<and>
   slice_regs_valid ((hw_idle(1 := \<lparr>enabled = False, div_reg = 32, cc_reg = 0, top_reg = 62500\<rparr>)) 1)"
proof -
  have loop: "freq_loop (2000000, 1) = (32, 62500)"
    by (simp add: freq_loop.simps freq_step_def TOP_MAX_def)
  have run: "mp_machine_pwm_freq_set 125000000 pwm1B 1000 hw_idle =
     (Inr (), hw_idle(1 := \<lparr>enabled = False, div_reg = 32, cc_reg = 0, top_reg = 62500\<rparr>))"
    by (simp add: mp_machine_pwm_freq_set_def loop pwm1B_def hw_idle_def)
  from freq_set_commits_valid [OF run] run show ?thesis by (simp add: pwm1B_def)
qed

text \<open>
  C10.  \<open>mp_machine_pwm_freq_set\<close> divides by the requested frequency without a guard.
  A request of 0 is a division by zero, before any register is written.  For every
  other request (so for every request of at least 1) the division is defined, and
  the call either succeeds or raises one of its two value errors: there is no other
  way for it to fail.
\<close>

theorem freq_set_division:
  "(freq = 0 \<longrightarrow> mp_machine_pwm_freq_set source_hz self freq hw = (Inl DivisionByZero, hw)) \<and>
   (freq \<noteq> 0 \<longrightarrow>
      fst (mp_machine_pwm_freq_set source_hz self freq hw) \<in>
        {Inr (), Inl (ValueError ''freq too large''), Inl (ValueError ''freq too small'')})"
proof (intro conjI impI)
  assume "freq = 0"
  then show "mp_machine_pwm_freq_set source_hz self freq hw = (Inl DivisionByZero, hw)"
    by (simp add: mp_machine_pwm_freq_set_def)
next
  assume "freq \<noteq> 0"
  then obtain d t where
    "mp_machine_pwm_freq_set source_hz self freq hw =
       (if d < 16 then (Inl (ValueError ''freq too large''), hw)
        else if 256 * 16 \<le> d then (Inl (ValueError ''freq too small''), hw)
        else (Inr (), hw(slice self := (hw (slice self))\<lparr>div_reg := d, top_reg := t\<rparr>)))"
    by (rule freq_set_cases)
  then show "fst (mp_machine_pwm_freq_set source_hz self freq hw) \<in>
        {Inr (), Inl (ValueError ''freq too large''), Inl (ValueError ''freq too small'')}"
    by simp
qed

text \<open>The theorem at a 125 MHz clock, for the requests 0 and 1000.\<close>

theorem freq_set_division_witness:
  "mp_machine_pwm_freq_set 125000000 pwm0A 0 hw_idle = (Inl DivisionByZero, hw_idle) \<and>
   (1000 :: mp_int_t) \<noteq> 0 \<and>
   fst (mp_machine_pwm_freq_set 125000000 pwm0A 1000 hw_idle) \<in>
        {Inr (), Inl (ValueError ''freq too large''), Inl (ValueError ''freq too small'')}"
  using freq_set_division [of 0 125000000 pwm0A hw_idle]
    freq_set_division [of 1000 125000000 pwm0A hw_idle]
  by simp

section \<open>Word arithmetic used by the duty conversions\<close>

lemma ffff_mask: "(0xffff :: uint32_t) = mask 16"
  by (simp add: mask_eq_exp_minus_1)

lemma half_A:
  fixes old lv :: uint32_t
  shows "drop_bit 0 ((old AND NOT (push_bit 0 0xffff)) OR push_bit 0 (lv AND 0xffff)) AND 0xffff
           = lv AND 0xffff"
  unfolding ffff_mask
  by (rule bit_word_eqI) (auto simp: bit_simps)

lemma half_B:
  fixes old lv :: uint32_t
  shows "drop_bit 16 ((old AND NOT (push_bit 16 0xffff)) OR push_bit 16 (lv AND 0xffff)) AND 0xffff
           = lv AND 0xffff"
  unfolding ffff_mask
  by (rule bit_word_eqI) (auto simp: bit_simps)

text \<open>Reading a channel's half after writing it gives the low 16 bits of the level.\<close>

lemma chan_cc_set:
  "chan_cc chan (cc_reg (pwm_set_chan_level sl chan level hw sl)) = level AND 0xffff"
  using half_A [of "cc_reg (hw sl)" level] half_B [of "cc_reg (hw sl)" level]
  by (simp add: chan_cc_def pwm_set_chan_level_def Let_def PWM_CH0_CC_A_LSB_def PWM_CH0_CC_B_LSB_def)

lemma and_ffff_id:
  fixes x :: uint32_t
  assumes "unat x \<le> 65535"
  shows "x AND 0xffff = x"
proof -
  have "x < 2 ^ 16" using assms by (simp add: word_less_nat_alt)
  then show ?thesis unfolding ffff_mask by (simp add: less_mask_eq)
qed

lemma unat_mult_exact:
  fixes a b :: uint32_t
  assumes "unat a * unat b < 2 ^ 32"
  shows "unat (a * b) = unat a * unat b"
  using assms unat_mult_lem [of a b] by simp

lemma unat_ucast_32_64: "unat (ucast (x :: uint32_t) :: uint64_t) = unat x"
  by transfer simp

text \<open>A non-negative \<open>mp_int_t\<close> reads the same signed and unsigned.\<close>

lemma sint_nonneg_uint:
  fixes x :: uint32_t
  assumes "0 \<le> sint x"
  shows "sint x = uint x"
proof -
  from assms have nb: "\<not> bit x 31"
    using bit_last_iff [of x] by simp
  then have nbu: "\<not> bit (uint x) 31" by (simp add: bit_uint_iff)
  have "take_bit 32 (uint x) = uint x"
    by transfer simp
  then have "uint x = take_bit (Suc 31) (uint x)"
    by simp
  also have "\<dots> = take_bit 31 (uint x)"
    using nbu by (simp only: take_bit_Suc_from_most) simp
  finally have "uint x = take_bit 31 (uint x)" .
  moreover have "sint x = signed_take_bit 31 (uint x)"
    using sint_uint [of x] by simp
  moreover have "signed_take_bit 31 (uint x) = take_bit 31 (uint x)"
    using nbu by (rule signed_take_bit_eq_if_positive)
  ultimately show ?thesis by simp
qed

lemma scast_nonneg:
  fixes x :: uint32_t
  assumes "0 \<le> sint x"
  shows "(scast x :: uint64_t) = ucast x" "unat x < 2 ^ 31" "int (unat x) = sint x"
proof -
  note e = sint_nonneg_uint [OF assms]
  show "(scast x :: uint64_t) = ucast x"
    by (simp only: scast_eq ucast_eq e)
  have u: "int (unat x) = uint x" by simp
  with e show "int (unat x) = sint x" by simp
  have "sint x < 2 ^ 31" using sint_lt [of x] by simp
  with e u have "int (unat x) < int (2 ^ 31)" by simp
  then show "unat x < 2 ^ 31" by (simp only: of_nat_less_iff)
qed

lemma nat_sint_nonneg:
  fixes x :: uint32_t
  assumes "0 \<le> sint x"
  shows "nat (sint x) = unat x"
  by (simp only: sint_nonneg_uint [OF assms]) simp

lemma unat_mult_exact_64:
  fixes a b :: uint64_t
  assumes "unat a * unat b < 2 ^ 64"
  shows "unat (a * b) = unat a * unat b"
  using assms unat_mult_lem [of a b] by simp

lemma unat_ucast_64_32:
  fixes q :: uint64_t
  assumes "unat q < 2 ^ 32"
  shows "unat (ucast q :: uint32_t) = unat q"
  using assms by (simp add: unsigned_ucast_eq take_bit_nat_eq_self)

lemma half_other_A:
  fixes old lv :: uint32_t
  shows "drop_bit 16 ((old AND NOT (push_bit 0 0xffff)) OR push_bit 0 (lv AND 0xffff)) AND 0xffff
           = drop_bit 16 old AND 0xffff"
  unfolding ffff_mask
  by (rule bit_word_eqI) (auto simp: bit_simps)

lemma half_other_B:
  fixes old lv :: uint32_t
  shows "drop_bit 0 ((old AND NOT (push_bit 16 0xffff)) OR push_bit 16 (lv AND 0xffff)) AND 0xffff
           = drop_bit 0 old AND 0xffff"
  unfolding ffff_mask
  by (rule bit_word_eqI) (auto simp: bit_simps)

lemma chan_cc_set_other:
  assumes "(c \<noteq> 0) \<noteq> (chan \<noteq> 0)"
  shows "chan_cc c (cc_reg (pwm_set_chan_level sl chan level hw sl)) = chan_cc c (cc_reg (hw sl))"
  using assms half_other_A [of "cc_reg (hw sl)" level] half_other_B [of "cc_reg (hw sl)" level]
  by (auto simp add: chan_cc_def pwm_set_chan_level_def Let_def PWM_CH0_CC_A_LSB_def PWM_CH0_CC_B_LSB_def)

section \<open>Duty as a 16-bit fraction\<close>

lemma duty_set_u16_regs:
  "top_reg (mp_machine_pwm_duty_set_u16 self duty_u16 hw (slice self)) = top_reg (hw (slice self))"
  "chan_cc (channel self) (cc_reg (mp_machine_pwm_duty_set_u16 self duty_u16 hw (slice self))) =
     (duty_u16 * (top_reg (hw (slice self)) + 1) div 65535) AND 0xffff"
  "enabled (mp_machine_pwm_duty_set_u16 self duty_u16 hw (slice self))"
  using chan_cc_set [of "channel self" "slice self"]
  by (simp_all add: mp_machine_pwm_duty_set_u16_def pwm_set_enabled_def Let_def,
      simp_all add: pwm_set_chan_level_def Let_def)

lemma duty_u16_product:
  fixes duty_u16 tp :: uint32_t
  assumes "unat duty_u16 \<le> 65535" "unat tp \<le> 65534"
  shows "unat (tp + 1) = unat tp + 1"
    and "unat (duty_u16 * (tp + 1)) = unat duty_u16 * (unat tp + 1)"
    and "unat duty_u16 * (unat tp + 1) \<le> 65535 * 65535"
    and "unat (duty_u16 * (tp + 1) div 65535) = unat duty_u16 * (unat tp + 1) div 65535"
    and "unat duty_u16 * (unat tp + 1) div 65535 \<le> unat tp + 1"
proof -
  show s: "unat (tp + 1) = unat tp + 1"
    using assms(2) by (simp add: unat_word_ariths)
  show b: "unat duty_u16 * (unat tp + 1) \<le> 65535 * 65535"
    using assms by (intro mult_le_mono) simp_all
  then have "unat duty_u16 * (unat tp + 1) < 2 ^ 32" by simp
  then show p: "unat (duty_u16 * (tp + 1)) = unat duty_u16 * (unat tp + 1)"
    by (simp add: unat_word_ariths(2) [of duty_u16] s)
  show "unat (duty_u16 * (tp + 1) div 65535) = unat duty_u16 * (unat tp + 1) div 65535"
    by (simp add: unat_div p)
  have "unat duty_u16 * (unat tp + 1) \<le> 65535 * (unat tp + 1)"
    using assms(1) by (rule mult_le_mono1)
  then have "unat duty_u16 * (unat tp + 1) div 65535 \<le> 65535 * (unat tp + 1) div 65535"
    by (rule div_le_mono)
  then show "unat duty_u16 * (unat tp + 1) div 65535 \<le> unat tp + 1" by simp
qed

text \<open>
  C9.  In \<open>mp_machine_pwm_duty_set_u16\<close>, for every fraction \<open>duty_u16\<close> in
  \<open>[0, 65535]\<close> and every \<open>top\<close> of at most 65534, the 32-bit product
  \<open>duty_u16 * (top + 1)\<close> is the product of the integers (it does not wrap), it is at
  most \<open>65535 * 65535\<close>, and the compare value stored for the channel is
  \<open>floor(duty_u16 * (top + 1) / 65535)\<close>, which is at most \<open>top + 1\<close>.  The fraction is
  read unsigned, as the multiplication reads it; an \<open>mp_int_t\<close> in \<open>[0, 65535]\<close> has
  that same value.
\<close>

theorem duty_set_u16_no_overflow:
  assumes "unat duty_u16 \<le> 65535" "unat (top_reg (hw (slice self))) \<le> 65534"
  shows "unat (duty_u16 * (top_reg (hw (slice self)) + 1)) =
           unat duty_u16 * (unat (top_reg (hw (slice self))) + 1) \<and>
         unat duty_u16 * (unat (top_reg (hw (slice self))) + 1) \<le> 65535 * 65535 \<and>
         unat (chan_cc (channel self)
                (cc_reg (mp_machine_pwm_duty_set_u16 self duty_u16 hw (slice self)))) =
           unat duty_u16 * (unat (top_reg (hw (slice self))) + 1) div 65535 \<and>
         unat (chan_cc (channel self)
                (cc_reg (mp_machine_pwm_duty_set_u16 self duty_u16 hw (slice self)))) \<le>
           unat (top_reg (hw (slice self))) + 1"
proof -
  note p = duty_u16_product [OF assms]
  have "unat (duty_u16 * (top_reg (hw (slice self)) + 1) div 65535) \<le> 65535"
    using p(4) p(5) assms(2) by simp
  then have "chan_cc (channel self)
                (cc_reg (mp_machine_pwm_duty_set_u16 self duty_u16 hw (slice self))) =
             duty_u16 * (top_reg (hw (slice self)) + 1) div 65535"
    by (simp add: duty_set_u16_regs(2) and_ffff_id)
  with p show ?thesis by simp
qed

text \<open>
  The theorem for half duty (32768) on channel B of slice 1 with \<open>top = 62500\<close>: the
  stored compare value is 31250.
\<close>

theorem duty_set_u16_no_overflow_witness:
  "unat (32768 :: mp_int_t) \<le> 65535 \<and>
   unat (top_reg (hw_regs 32 62500 (slice pwm1B))) \<le> 65534 \<and>
   unat (chan_cc (channel pwm1B)
          (cc_reg (mp_machine_pwm_duty_set_u16 pwm1B 32768 (hw_regs 32 62500) (slice pwm1B))))
     = 31250"
proof -
  have a: "unat (32768 :: mp_int_t) \<le> 65535" by simp
  have b: "unat (top_reg (hw_regs 32 62500 (slice pwm1B))) \<le> 65534"
    by (simp add: hw_regs_def)
  from duty_set_u16_no_overflow [of 32768 "hw_regs 32 62500" pwm1B, OF a b] a b
  show ?thesis
    by (simp add: hw_regs_def)
qed

text \<open>
  C5.  For every \<open>top\<close> of at most 65534 (so for every \<open>top\<close> in \<open>[1, 65534]\<close>),
  setting the duty fraction 65535 and reading the fraction back gives exactly 65535,
  and setting 0 and reading back gives exactly 0.
\<close>

theorem duty_u16_full_and_zero:
  assumes "unat (top_reg (hw (slice self))) \<le> 65534"
  shows "mp_machine_pwm_duty_get_u16 self (mp_machine_pwm_duty_set_u16 self 65535 hw) = Inr 65535 \<and>
         mp_machine_pwm_duty_get_u16 self (mp_machine_pwm_duty_set_u16 self 0 hw) = Inr 0"
proof -
  let ?top = "top_reg (hw (slice self))"
  have s: "unat (?top + 1) = unat ?top + 1"
    using assms by (simp add: unat_word_ariths)
  then have nz: "?top + 1 \<noteq> 0" by (metis unat_0 Suc_eq_plus1 nat.simps(3))
  have full: "chan_cc (channel self)
       (cc_reg (mp_machine_pwm_duty_set_u16 self 65535 hw (slice self))) = ?top + 1"
  proof -
    have "unat (65535 * (?top + 1) div 65535) = unat (?top + 1)"
      using duty_u16_product(4) [of 65535 ?top] assms s by simp
    then have e: "65535 * (?top + 1) div 65535 = ?top + 1" by (simp add: word_unat_eq_iff)
    have "chan_cc (channel self)
       (cc_reg (mp_machine_pwm_duty_set_u16 self 65535 hw (slice self))) =
          (65535 * (?top + 1) div 65535) AND 0xffff"
      by (rule duty_set_u16_regs(2))
    also have "\<dots> = (?top + 1) AND 0xffff" by (simp only: e)
    also have "\<dots> = ?top + 1" using s assms by (intro and_ffff_id) simp
    finally show ?thesis .
  qed
  have "unat ((?top + 1) * 65535 div (?top + 1)) = 65535"
  proof -
    have "unat (?top + 1) * unat (65535 :: uint32_t) < 2 ^ 32"
      using s assms by simp
    then have "unat ((?top + 1) * 65535) = unat (?top + 1) * unat (65535 :: uint32_t)"
      by (rule unat_mult_exact)
    then have "unat ((?top + 1) * 65535 div (?top + 1)) =
                 unat (?top + 1) * unat (65535 :: uint32_t) div unat (?top + 1)"
      by (simp only: unat_div)
    also have "\<dots> = unat (65535 :: uint32_t)"
      using s by (intro nonzero_mult_div_cancel_left) simp
    finally show ?thesis by simp
  qed
  then have again: "(?top + 1) * 65535 div (?top + 1) = 65535"
    by (simp add: word_unat_eq_iff)
  have zero: "chan_cc (channel self)
       (cc_reg (mp_machine_pwm_duty_set_u16 self 0 hw (slice self))) = 0"
    by (simp add: duty_set_u16_regs(2))
  show ?thesis
    using nz full again zero
    by (simp add: mp_machine_pwm_duty_get_u16_def Let_def duty_set_u16_regs(1))
qed

text \<open>The theorem on channel A of slice 0 with \<open>top = 62500\<close>.\<close>

theorem duty_u16_full_and_zero_witness:
  "unat (top_reg (hw_regs 32 62500 (slice pwm0A))) \<le> 65534 \<and>
   mp_machine_pwm_duty_get_u16 pwm0A (mp_machine_pwm_duty_set_u16 pwm0A 65535 (hw_regs 32 62500))
     = Inr 65535 \<and>
   mp_machine_pwm_duty_get_u16 pwm0A (mp_machine_pwm_duty_set_u16 pwm0A 0 (hw_regs 32 62500))
     = Inr 0"
proof -
  have a: "unat (top_reg (hw_regs 32 62500 (slice pwm0A))) \<le> 65534"
    by (simp add: hw_regs_def)
  from duty_u16_full_and_zero [of "hw_regs 32 62500" pwm0A, OF a] a show ?thesis by simp
qed

section \<open>Reading the frequency\<close>

text \<open>
  C7, as the claim states it, fails: the source computes \<open>16 * source_hz\<close> in 32 bits.
  At a system clock of 300 MHz with \<open>div16 = 16\<close> and \<open>top = 1000\<close> the product wraps
  and \<open>mp_machine_pwm_freq_get\<close> returns 31564, where
  \<open>floor(floor(16 * 300000000 / 16) / 1000)\<close> is 300000.
\<close>

theorem freq_get_wraps_at_300MHz:
  "div_reg (hw_regs 16 1000 (slice pwm0A)) = 16 \<and>
   top_reg (hw_regs 16 1000 (slice pwm0A)) = 1000 \<and>
   mp_machine_pwm_freq_get 300000000 pwm0A (hw_regs 16 1000) = Inr 31564 \<and>
   16 * unat (300000000 :: uint32_t) div unat (16 :: uint32_t) div unat (1000 :: uint32_t) = 300000"
  by (simp add: mp_machine_pwm_freq_get_def hw_regs_def)

text \<open>
  C7, amended.  For every register state with \<open>div16 \<ge> 1\<close> and \<open>top \<ge> 1\<close> and every
  system clock below \<open>2^28\<close> Hz (so that \<open>16 * source_hz\<close> fits in 32 bits),
  \<open>mp_machine_pwm_freq_get\<close> returns exactly
  \<open>floor(floor(16 * source_hz / div16) / top)\<close>.
\<close>

theorem freq_get_value:
  assumes "div_reg (hw (slice self)) \<noteq> 0" "top_reg (hw (slice self)) \<noteq> 0"
    and "unat source_hz < 2 ^ 28"
  shows "\<exists>r. mp_machine_pwm_freq_get source_hz self hw = Inr r \<and>
             unat r = 16 * unat source_hz div unat (div_reg (hw (slice self)))
                        div unat (top_reg (hw (slice self)))"
proof -
  have "unat (16 * source_hz) = 16 * unat source_hz"
    using assms(3) by (simp add: unat_word_ariths)
  then show ?thesis using assms(1,2)
    by (simp add: mp_machine_pwm_freq_get_def Let_def unat_div)
qed

text \<open>
  The theorem at a 125 MHz clock with \<open>div16 = 32\<close> and \<open>top = 62500\<close>, the registers a
  request of 1 kHz commits: the frequency read back is 1000.
\<close>

theorem freq_get_value_witness:
  "div_reg (hw_regs 32 62500 (slice pwm0A)) \<noteq> 0 \<and>
   top_reg (hw_regs 32 62500 (slice pwm0A)) \<noteq> 0 \<and>
   unat (125000000 :: uint32_t) < 2 ^ 28 \<and>
   mp_machine_pwm_freq_get 125000000 pwm0A (hw_regs 32 62500) = Inr 1000"
proof -
  have a: "div_reg (hw_regs 32 62500 (slice pwm0A)) \<noteq> 0"
    and b: "top_reg (hw_regs 32 62500 (slice pwm0A)) \<noteq> 0"
    by (simp_all add: hw_regs_def)
  have c: "unat (125000000 :: uint32_t) < 2 ^ 28" by simp
  from freq_get_value [of "hw_regs 32 62500" pwm0A 125000000, OF a b c] obtain r where
    r: "mp_machine_pwm_freq_get 125000000 pwm0A (hw_regs 32 62500) = Inr r"
    and v: "unat r = 16 * unat (125000000 :: uint32_t) div
                unat (div_reg (hw_regs 32 62500 (slice pwm0A))) div
                unat (top_reg (hw_regs 32 62500 (slice pwm0A)))"
    by blast
  from v have "unat r = unat (1000 :: uint32_t)" by (simp add: hw_regs_def)
  then have "r = 1000" by (simp only: word_unat_eq_iff)
  with r a b c show ?thesis by simp
qed

section \<open>The solver of the frequency setter\<close>

text \<open>
  While \<open>top\<close> is at most 65534, one pass of the source's loop on 32-bit words is one
  pass of \<open>solver_step\<close> on the values of those words.
\<close>

lemma step_refines:
  assumes "unat t \<le> 65534"
  shows "map_option (map_prod unat unat) (freq_step (d, t)) = solver_step (unat d, unat t)"
proof -
  note m = unat_top_mult [OF assms]
  have g5: "t * 5 \<le> TOP_MAX \<longleftrightarrow> unat t * 5 \<le> 65534"
   and g3: "t * 3 \<le> TOP_MAX \<longleftrightarrow> unat t * 3 \<le> 65534"
   and g2: "t * 2 \<le> TOP_MAX \<longleftrightarrow> unat t * 2 \<le> 65534"
    by (simp_all add: word_le_nat_alt TOP_MAX_def m)
  have d5: "16 * 5 \<le> d \<longleftrightarrow> 16 * 5 \<le> unat d"
   and d3: "16 * 3 \<le> d \<longleftrightarrow> 16 * 3 \<le> unat d"
   and d2: "16 * 2 \<le> d \<longleftrightarrow> 16 * 2 \<le> unat d"
    by (simp_all add: word_le_nat_alt)
  have m5: "d mod 5 = 0 \<longleftrightarrow> 5 dvd unat d"
   and m3: "d mod 3 = 0 \<longleftrightarrow> 3 dvd unat d"
    by (simp_all add: word_unat_eq_iff unat_mod dvd_eq_mod_eq_0)
  show ?thesis
    unfolding freq_step_def solver_step_def prod.case g5 g3 g2 d5 d3 d2 m5 m3
    by (simp add: unat_div m)
qed

lemma loop_refines:
  assumes "unat (snd s) \<le> 65534"
  shows "map_prod unat unat (freq_loop s) = solver_loop (map_prod unat unat s)"
  using assms
proof (induction s rule: freq_loop.induct)
  case (1 s)
  obtain d t where s: "s = (d, t)" by (cases s)
  from "1.prems" s have t: "unat t \<le> 65534" by simp
  note r = step_refines [OF t, of d]
  show ?case
  proof (cases "freq_step s")
    case None
    with r s have "solver_step (unat d, unat t) = None" by simp
    with None s show ?thesis
      by (simp add: freq_loop.simps [of "(d, t)"] solver_loop.simps [of "(unat d, unat t)"])
  next
    case (Some s')
    obtain d' t' where s': "s' = (d', t')" by (cases s')
    from Some s s' have st: "freq_step (d, t) = Some (d', t')" by simp
    with r have a: "solver_step (unat d, unat t) = Some (unat d', unat t')" by simp
    from freq_step_top [OF st t] have "unat (snd s') \<le> 65534" by (simp add: s')
    from "1.IH" [OF Some this] have "map_prod unat unat (freq_loop s') = solver_loop (unat d', unat t')"
      by (simp add: s')
    with st a s s' show ?thesis
      by (simp add: freq_loop.simps [of "(d, t)"] solver_loop.simps [of "(unat d, unat t)"])
  qed
qed

lemma initial_div16_top:
  fixes freq :: mp_int_t and source_hz :: uint32_t
  assumes "1 \<le> sint freq" "unat source_hz < 2 ^ 28"
  shows "unat (16 * source_hz div freq) = 16 * unat source_hz div nat (sint freq)" "freq \<noteq> 0"
proof -
  from assms(1) have nn: "0 \<le> sint freq" by simp
  note f = nat_sint_nonneg [OF nn]
  have "unat (16 * source_hz) = 16 * unat source_hz"
    using assms(2) by (simp add: unat_word_ariths)
  then show "unat (16 * source_hz div freq) = 16 * unat source_hz div nat (sint freq)"
    by (simp add: unat_div f)
  from assms(1) show "freq \<noteq> 0" by auto
qed

text \<open>
  C1, as the claim states it, fails.  At a 125 MHz clock a request of 1001 Hz gives
  \<open>div16_top = floor(2000000000 / 1001) = 1998001\<close>, which is odd; the first pass of
  the source's loop nevertheless halves it to 999000 (rounding down) and doubles
  \<open>top\<close>, and the call commits \<open>div16 = 37\<close>, \<open>top = 54000\<close>.  Extraction with
  exactness required of all three factors extracts nothing from 1998001 and leaves
  \<open>(1998001, 1)\<close>.  Also, \<open>16 * source_hz\<close> is computed in 32 bits: at a 300 MHz clock a
  request of 1000 Hz commits \<open>div16 = 18\<close>, \<open>top = 27648\<close>, where the extraction from
  \<open>floor(16 * 300000000 / 1000)\<close> ends with \<open>(128, 37500)\<close>.
\<close>

theorem freq_set_halves_inexactly:
  "mp_machine_pwm_freq_set 125000000 pwm0A 1001 hw_idle =
     (Inr (), hw_idle(0 := \<lparr>enabled = False, div_reg = 37, cc_reg = 0, top_reg = 54000\<rparr>)) \<and>
   exact_loop (16 * 125000000 div 1001, 1) = (1998001, 1) \<and>
   freq_step (16 * 125000000 div 1001, 1) = Some (999000, 2) \<and>
   \<not> 2 dvd (1998001 :: nat) \<and>
   mp_machine_pwm_freq_set 300000000 pwm0A 1000 hw_idle =
     (Inr (), hw_idle(0 := \<lparr>enabled = False, div_reg = 18, cc_reg = 0, top_reg = 27648\<rparr>)) \<and>
   exact_loop (16 * 300000000 div 1000, 1) = (128, 37500)"
proof -
  have l1: "freq_loop (1998001, 1) = (37, 54000)"
    by (simp add: freq_loop.simps freq_step_def TOP_MAX_def)
  have l2: "freq_loop (505032, 1) = (18, 27648)"
    by (simp add: freq_loop.simps freq_step_def TOP_MAX_def)
  have c1: "exact_loop (1998001, 1) = (1998001, 1)"
    by (simp add: exact_loop.simps exact_step_def)
  have c2: "exact_loop (4800000, 1) = (128, 37500)"
    by (simp add: exact_loop.simps exact_step_def)
  have s: "freq_step (1998001, 1) = Some (999000, 2)"
    by (simp add: freq_step_def TOP_MAX_def)
  have r1: "mp_machine_pwm_freq_set 125000000 pwm0A 1001 hw_idle =
     (Inr (), hw_idle(0 := \<lparr>enabled = False, div_reg = 37, cc_reg = 0, top_reg = 54000\<rparr>))"
    by (simp add: mp_machine_pwm_freq_set_def l1 pwm0A_def hw_idle_def)
  have r2: "mp_machine_pwm_freq_set 300000000 pwm0A 1000 hw_idle =
     (Inr (), hw_idle(0 := \<lparr>enabled = False, div_reg = 18, cc_reg = 0, top_reg = 27648\<rparr>))"
    by (simp add: mp_machine_pwm_freq_set_def l2 pwm0A_def hw_idle_def)
  show ?thesis using r1 r2 c1 c2 s by simp
qed

text \<open>
  C1, amended.  For every system clock below \<open>2^28\<close> Hz and every requested frequency
  of at least 1, \<open>mp_machine_pwm_freq_set\<close> starts from
  \<open>div16_top = floor(16 * source_hz / freq)\<close> and \<open>top = 1\<close> and on each pass tries 5,
  then 3, then 2: it extracts 5 or 3 only when the factor divides \<open>div16_top\<close> exactly,
  \<open>div16_top\<close> is at least 16 times the factor and \<open>top\<close> times the factor is at most
  65534; it extracts 2 whenever \<open>div16_top \<ge> 32\<close> and \<open>2 * top \<le> 65534\<close>, halving
  \<open>div16_top\<close> with rounding down.  The loop ends when no factor applies, and a
  successful call commits the pair it ends with.  No 32-bit operation of the loop
  wraps.
\<close>

theorem freq_set_solver:
  assumes "1 \<le> sint freq" "unat source_hz < 2 ^ 28"
  shows "map_prod unat unat (freq_loop (16 * source_hz div freq, 1)) =
           solver_loop (16 * unat source_hz div nat (sint freq), 1) \<and>
         (\<forall>hw'. mp_machine_pwm_freq_set source_hz self freq hw = (Inr (), hw') \<longrightarrow>
            (unat (div_reg (hw' (slice self))), unat (top_reg (hw' (slice self)))) =
              solver_loop (16 * unat source_hz div nat (sint freq), 1))"
proof -
  note i = initial_div16_top [OF assms]
  have l: "map_prod unat unat (freq_loop (16 * source_hz div freq, 1)) =
           solver_loop (16 * unat source_hz div nat (sint freq), 1)"
    using loop_refines [of "(16 * source_hz div freq, 1)"] i(1) by simp
  from i(2) obtain d t where dt: "freq_loop (16 * source_hz div freq, 1) = (d, t)"
    and r: "mp_machine_pwm_freq_set source_hz self freq hw =
       (if d < 16 then (Inl (ValueError ''freq too large''), hw)
        else if 256 * 16 \<le> d then (Inl (ValueError ''freq too small''), hw)
        else (Inr (), hw(slice self := (hw (slice self))\<lparr>div_reg := d, top_reg := t\<rparr>)))"
    by (rule freq_set_cases)
  from l dt have "(unat d, unat t) = solver_loop (16 * unat source_hz div nat (sint freq), 1)"
    by simp
  then have "\<forall>hw'. mp_machine_pwm_freq_set source_hz self freq hw = (Inr (), hw') \<longrightarrow>
            (unat (div_reg (hw' (slice self))), unat (top_reg (hw' (slice self)))) =
              solver_loop (16 * unat source_hz div nat (sint freq), 1)"
    unfolding r by (auto split: if_splits)
  with l show ?thesis by simp
qed

text \<open>The theorem at a 125 MHz clock and a request of 1 kHz: \<open>div16 = 32\<close>, \<open>top = 62500\<close>.\<close>

theorem freq_set_solver_witness:
  "1 \<le> sint (1000 :: mp_int_t) \<and> unat (125000000 :: uint32_t) < 2 ^ 28 \<and>
   map_prod unat unat (freq_loop (16 * 125000000 div 1000, 1)) = (32, 62500) \<and>
   solver_loop (16 * unat (125000000 :: uint32_t) div nat (sint (1000 :: mp_int_t)), 1) = (32, 62500)"
proof -
  have a: "1 \<le> sint (1000 :: mp_int_t)" by simp
  have b: "unat (125000000 :: uint32_t) < 2 ^ 28" by simp
  have "solver_loop (2000000, 1) = (32, 62500)"
    by (simp add: solver_loop.simps solver_step_def)
  then have c: "solver_loop (16 * unat (125000000 :: uint32_t) div nat (sint (1000 :: mp_int_t)), 1) = (32, 62500)"
    by simp
  from freq_set_solver [OF a b, of pwm0A hw_idle] a b c show ?thesis by simp
qed

section \<open>Duty in nanoseconds\<close>

lemma slice_hz_value:
  fixes source_hz d :: uint32_t
  assumes "unat source_hz < 2 ^ 28"
  shows "unat (16 * source_hz div d) = spec_slice_hz (unat source_hz) (unat d)"
proof -
  have "unat (16 * source_hz) = 16 * unat source_hz"
    using assms by (simp add: unat_word_ariths)
  then show ?thesis by (simp add: unat_div spec_slice_hz_def)
qed

text \<open>The 64-bit quotient of the setter, before it is cut to 32 bits.\<close>

lemma duty_ns_quotient:
  fixes duty_ns slice_hz :: uint32_t
  assumes "0 \<le> sint duty_ns"
  shows "unat ((scast duty_ns :: uint64_t) * ucast slice_hz div 1000000000) =
           spec_compare_ns (nat (sint duty_ns)) (unat slice_hz)"
proof -
  have n: "unat (ucast duty_ns :: uint64_t) = unat duty_ns"
   and h: "unat (ucast slice_hz :: uint64_t) = unat slice_hz"
    by (rule unat_ucast_32_64)+
  have "unat duty_n < 2 ^ 32" for duty_n :: uint32_t
    using unsigned_less [of duty_n, where 'a = nat] by simp
  then have "unat duty_ns * unat slice_hz < 2 ^ 32 * 2 ^ 32"
    by (intro mult_strict_mono) simp_all
  then have "unat (ucast duty_ns :: uint64_t) * unat (ucast slice_hz :: uint64_t) < 2 ^ 64"
    by (simp add: n h)
  then have "unat ((ucast duty_ns :: uint64_t) * ucast slice_hz) = unat duty_ns * unat slice_hz"
    using unat_mult_exact_64 [of "ucast duty_ns" "ucast slice_hz"] by (simp add: n h)
  then show ?thesis
    by (simp add: scast_nonneg(1) [OF assms] nat_sint_nonneg [OF assms] unat_div spec_compare_ns_def)
qed

lemma compare_fits_valid_div:
  assumes "16 \<le> d" "source_hz < 2 ^ 28" "n < 2 ^ 31"
  shows "spec_compare_ns n (spec_slice_hz source_hz d) < 2 ^ 32"
proof -
  have "16 * source_hz div d \<le> 16 * source_hz div 16"
    using assms(1) by (intro div_le_mono2) simp_all
  then have "spec_slice_hz source_hz d \<le> 2 ^ 28"
    using assms(2) by (simp add: spec_slice_hz_def)
  then have "n * spec_slice_hz source_hz d \<le> 2 ^ 31 * 2 ^ 28"
    using assms(3) by (intro mult_mono) simp_all
  then have "n * spec_slice_hz source_hz d div 1000000000 \<le> 2 ^ 31 * 2 ^ 28 div 1000000000"
    by (rule div_le_mono)
  then show ?thesis by (simp add: spec_compare_ns_def)
qed

text \<open>What the setter does once the divider is not zero, in terms of the 32-bit \<open>cc\<close>.\<close>

lemma duty_set_ns_cases:
  fixes source_hz :: uint32_t and duty_ns :: mp_int_t
  assumes "div_reg (hw (slice self)) \<noteq> 0"
  defines "cc \<equiv> (ucast ((scast duty_ns :: uint64_t) *
                   ucast (16 * source_hz div div_reg (hw (slice self))) div 1000000000) :: uint32_t)"
  shows "mp_machine_pwm_duty_set_ns source_hz self duty_ns hw =
           (if cc > 65535 then (Inl (ValueError ''duty larger than period''), hw)
            else (Inr (), pwm_set_enabled (slice self) True
                            (pwm_set_chan_level (slice self) (channel self) cc hw)))"
  using assms(1) by (simp add: mp_machine_pwm_duty_set_ns_def Let_def cc_def)

lemma duty_set_ns_written:
  "chan_cc (channel self) (cc_reg (pwm_set_enabled (slice self) True
       (pwm_set_chan_level (slice self) (channel self) cc hw) (slice self))) = cc AND 0xffff"
  "enabled (pwm_set_enabled (slice self) True
       (pwm_set_chan_level (slice self) (channel self) cc hw) (slice self))"
  "div_reg (pwm_set_enabled (slice self) True
       (pwm_set_chan_level (slice self) (channel self) cc hw) (slice self)) = div_reg (hw (slice self))"
  "(c \<noteq> 0) \<noteq> (channel self \<noteq> 0) \<Longrightarrow>
     chan_cc c (cc_reg (pwm_set_enabled (slice self) True
       (pwm_set_chan_level (slice self) (channel self) cc hw) (slice self))) =
     chan_cc c (cc_reg (hw (slice self)))"
  using chan_cc_set [of "channel self" "slice self" cc hw]
        chan_cc_set_other [of c "channel self" "slice self" cc hw]
  by (simp_all add: pwm_set_enabled_def, simp_all add: pwm_set_chan_level_def Let_def)

lemma duty_set_ns_cc:
  fixes duty_ns :: mp_int_t and source_hz d :: uint32_t
  assumes "0 \<le> sint duty_ns" "unat source_hz < 2 ^ 28"
    and "spec_compare_ns (nat (sint duty_ns)) (spec_slice_hz (unat source_hz) (unat d)) < 2 ^ 32"
  shows "unat (ucast ((scast duty_ns :: uint64_t) * ucast (16 * source_hz div d) div 1000000000)
                :: uint32_t) =
           spec_compare_ns (nat (sint duty_ns)) (spec_slice_hz (unat source_hz) (unat d))"
proof -
  have "unat ((scast duty_ns :: uint64_t) * ucast (16 * source_hz div d) div 1000000000) =
          spec_compare_ns (nat (sint duty_ns)) (spec_slice_hz (unat source_hz) (unat d))"
    by (simp add: duty_ns_quotient [OF assms(1)] slice_hz_value [OF assms(2)])
  with assms(3) show ?thesis by (simp add: unat_ucast_64_32)
qed

text \<open>
  C3, as the claim states it, fails for register states and clocks outside the ranges
  the 32-bit arithmetic is made for.  The 64-bit quotient is cut to 32 bits before it
  is compared with 65535: at a 133 MHz clock with \<open>div16 = 1\<close> a duty of 2018311700 ns
  has compare value \<open>4294967297 > 65535\<close>, yet the call succeeds and writes 1.  The
  product \<open>16 * source_hz\<close> wraps from \<open>2^28\<close> Hz on: at 300 MHz with \<open>div16 = 16\<close> a
  duty of 1000000 ns has compare value 300000, yet the call succeeds and writes
  31564.  With \<open>div16 = 0\<close> the call divides by zero.
\<close>

theorem duty_set_ns_fails_outside:
  "spec_compare_ns 2018311700 (spec_slice_hz 133000000 1) = 4294967297 \<and>
   mp_machine_pwm_duty_set_ns 133000000 pwm0A 2018311700 (hw_regs 1 65534) =
     (Inr (), (hw_regs 1 65534)(0 := \<lparr>enabled = True, div_reg = 1, cc_reg = 1, top_reg = 65534\<rparr>)) \<and>
   spec_compare_ns 1000000 (spec_slice_hz 300000000 16) = 300000 \<and>
   mp_machine_pwm_duty_set_ns 300000000 pwm0A 1000000 (hw_regs 16 65534) =
     (Inr (), (hw_regs 16 65534)(0 := \<lparr>enabled = True, div_reg = 16, cc_reg = 31564, top_reg = 65534\<rparr>)) \<and>
   mp_machine_pwm_duty_set_ns 125000000 pwm0A 1000 (hw_regs 0 65534) =
     (Inl DivisionByZero, hw_regs 0 65534)"
  by (simp add: spec_compare_ns_def spec_slice_hz_def
        mp_machine_pwm_duty_set_ns_def hw_regs_def pwm0A_def PWM_CHAN_A_def
        pwm_set_chan_level_def pwm_set_enabled_def PWM_CH0_CC_A_LSB_def Let_def)

text \<open>
  C3, amended.  For every register state with \<open>div16 \<ge> 1\<close>, every system clock below
  \<open>2^28\<close> Hz and every \<open>duty_ns \<ge> 0\<close> whose compare value
  \<open>floor(duty_ns * sliceHz / 1_000_000_000)\<close>, with
  \<open>sliceHz = floor(16 * source_hz / div16)\<close>, is below \<open>2^32\<close> (lemma
  \<open>compare_fits_valid_div\<close>: always so when \<open>div16 \<ge> 16\<close>),
  \<open>mp_machine_pwm_duty_set_ns\<close> raises the value error "duty larger than period"
  exactly when the compare value exceeds 65535, leaving all registers as they were;
  otherwise (so also at exactly 65535) it succeeds, the channel's half of the compare
  register holds the compare value, the other half is unchanged and the slice is
  enabled.
\<close>

theorem duty_set_ns_outcome:
  assumes "div_reg (hw (slice self)) \<noteq> 0" "0 \<le> sint duty_ns" "unat source_hz < 2 ^ 28"
    and "spec_compare_ns (nat (sint duty_ns))
           (spec_slice_hz (unat source_hz) (unat (div_reg (hw (slice self))))) < 2 ^ 32"
  shows "let compare = spec_compare_ns (nat (sint duty_ns))
                         (spec_slice_hz (unat source_hz) (unat (div_reg (hw (slice self)))));
             res = mp_machine_pwm_duty_set_ns source_hz self duty_ns hw
         in (fst res = Inl (ValueError ''duty larger than period'') \<longleftrightarrow> 65535 < compare) \<and>
            (65535 < compare \<longrightarrow> snd res = hw) \<and>
            (compare \<le> 65535 \<longrightarrow>
               fst res = Inr () \<and>
               unat (chan_cc (channel self) (cc_reg (snd res (slice self)))) = compare \<and>
               enabled (snd res (slice self)) \<and>
               (\<forall>c. (c \<noteq> 0) \<noteq> (channel self \<noteq> 0) \<longrightarrow>
                  chan_cc c (cc_reg (snd res (slice self))) = chan_cc c (cc_reg (hw (slice self)))))"
proof -
  define compare where "compare = spec_compare_ns (nat (sint duty_ns))
                         (spec_slice_hz (unat source_hz) (unat (div_reg (hw (slice self)))))"
  define cc where "cc = (ucast ((scast duty_ns :: uint64_t) *
                   ucast (16 * source_hz div div_reg (hw (slice self))) div 1000000000) :: uint32_t)"
  have cc: "unat cc = compare"
    unfolding cc_def compare_def by (rule duty_set_ns_cc [OF assms(2,3,4)])
  then have gt: "cc > 65535 \<longleftrightarrow> 65535 < compare"
    by (simp add: word_less_nat_alt)
  note r = duty_set_ns_cases [where hw = hw and self = self and source_hz = source_hz
                                and duty_ns = duty_ns, OF assms(1), folded cc_def]
  have small: "cc AND 0xffff = cc" if "compare \<le> 65535"
    using that cc by (intro and_ffff_id) simp
  show ?thesis
    unfolding compare_def [symmetric] Let_def r
    using gt cc small by (auto simp: duty_set_ns_written)
qed

text \<open>
  The theorem at the boundary: 125 MHz, \<open>div16 = 32\<close>, a duty of 1048560 ns has compare
  value exactly 65535, and the call succeeds and stores 65535.
\<close>

theorem duty_set_ns_outcome_witness:
  "div_reg (hw_regs 32 62500 (slice pwm1B)) \<noteq> 0 \<and> 0 \<le> sint (1048560 :: mp_int_t) \<and>
   unat (125000000 :: uint32_t) < 2 ^ 28 \<and>
   spec_compare_ns (nat (sint (1048560 :: mp_int_t)))
     (spec_slice_hz (unat (125000000 :: uint32_t)) (unat (div_reg (hw_regs 32 62500 (slice pwm1B)))))
     = 65535 \<and>
   fst (mp_machine_pwm_duty_set_ns 125000000 pwm1B 1048560 (hw_regs 32 62500)) = Inr () \<and>
   unat (chan_cc (channel pwm1B)
          (cc_reg (snd (mp_machine_pwm_duty_set_ns 125000000 pwm1B 1048560 (hw_regs 32 62500))
                     (slice pwm1B)))) = 65535"
proof -
  have a: "div_reg (hw_regs 32 62500 (slice pwm1B)) \<noteq> 0" by (simp add: hw_regs_def)
  have b: "0 \<le> sint (1048560 :: mp_int_t)" by simp
  have c: "unat (125000000 :: uint32_t) < 2 ^ 28" by simp
  have v: "spec_compare_ns (nat (sint (1048560 :: mp_int_t)))
     (spec_slice_hz (unat (125000000 :: uint32_t)) (unat (div_reg (hw_regs 32 62500 (slice pwm1B)))))
     = 65535"
    by (simp add: spec_compare_ns_def spec_slice_hz_def hw_regs_def)
  then have d: "spec_compare_ns (nat (sint (1048560 :: mp_int_t)))
     (spec_slice_hz (unat (125000000 :: uint32_t)) (unat (div_reg (hw_regs 32 62500 (slice pwm1B)))))
     < 2 ^ 32"
    by (simp only:) simp
  from duty_set_ns_outcome [where hw = "hw_regs 32 62500" and self = pwm1B
         and source_hz = 125000000 and duty_ns = 1048560, OF a b c d]
  have "fst (mp_machine_pwm_duty_set_ns 125000000 pwm1B 1048560 (hw_regs 32 62500)) = Inr () \<and>
        unat (chan_cc (channel pwm1B)
          (cc_reg (snd (mp_machine_pwm_duty_set_ns 125000000 pwm1B 1048560 (hw_regs 32 62500))
                     (slice pwm1B)))) = 65535"
    unfolding v Let_def by simp
  with a b c v show ?thesis by simp
qed

text \<open>Floor in both directions: the value read back is at most the value set, and short of
  it by less than one compare unit plus one.\<close>

lemma floor_round_trip:
  fixes n s B :: nat
  assumes "0 < s" "0 < B"
  shows "(n * s div B) * B div s \<le> n"
    and "(n - (n * s div B) * B div s) * s < B + s"
proof -
  let ?c = "n * s div B"
  let ?r = "?c * B div s"
  have cB: "?c * B \<le> n * s" by (rule div_times_less_eq_dividend)
  then have "?r \<le> n * s div s" by (rule div_le_mono)
  then show le: "?r \<le> n" using assms(1) by simp
  have "n * s = ?c * B + n * s mod B" by simp
  moreover have "n * s mod B < B" using assms(2) by simp
  ultimately have 1: "n * s < ?c * B + B" by linarith
  have "?c * B = ?r * s + ?c * B mod s" by simp
  moreover have "?c * B mod s < s" using assms(1) by simp
  ultimately have 2: "?c * B < ?r * s + s" by linarith
  from 1 2 have "n * s < ?r * s + s + B" by linarith
  with assms(1) have "n * s - ?r * s < B + s" by linarith
  then show "(n - ?r) * s < B + s" by (simp add: diff_mult_distrib)
qed

text \<open>
  C6, as the claim states it, fails.  At 125 MHz with \<open>div16 = 17\<close> and \<open>top = 65534\<close>
  the slice runs at 117647058 Hz, so one compare unit is a little over 8.5 ns and the
  period is over 557000 ns.  Setting 17 ns succeeds and stores 1; reading back gives
  8 ns, which is 9 ns short: more than one unit (\<open>9 * 117647058 > 10^9\<close>).  Further,
  from \<open>2^28\<close> Hz on the slice frequency the source computes is not
  \<open>floor(16 * source_hz / div16)\<close>: at 300 MHz with \<open>div16 = 16\<close>, 20 ns reads back as
  0 ns, short by more than a unit of that frequency plus one.  And when the slice
  frequency is 0 (a 100 Hz clock with \<open>div16 = 4095\<close>) the setter succeeds and the
  getter divides by zero.
\<close>

theorem duty_ns_round_trip_off_by_more:
  "mp_machine_pwm_duty_set_ns 125000000 pwm0A 17 (hw_regs 17 65534) =
     (Inr (), (hw_regs 17 65534)(0 := \<lparr>enabled = True, div_reg = 17, cc_reg = 1, top_reg = 65534\<rparr>)) \<and>
   mp_machine_pwm_duty_get_ns 125000000 pwm0A
     ((hw_regs 17 65534)(0 := \<lparr>enabled = True, div_reg = 17, cc_reg = 1, top_reg = 65534\<rparr>)) = Inr 8 \<and>
   spec_slice_hz 125000000 17 = 117647058 \<and>
   17 * spec_slice_hz 125000000 17 \<le> (65534 + 1) * 1000000000 \<and>
   1000000000 < (17 - 8) * spec_slice_hz 125000000 17 \<and>
   mp_machine_pwm_duty_set_ns 300000000 pwm0A 20 (hw_regs 16 65534) =
     (Inr (), (hw_regs 16 65534)(0 := \<lparr>enabled = True, div_reg = 16, cc_reg = 0, top_reg = 65534\<rparr>)) \<and>
   mp_machine_pwm_duty_get_ns 300000000 pwm0A
     ((hw_regs 16 65534)(0 := \<lparr>enabled = True, div_reg = 16, cc_reg = 0, top_reg = 65534\<rparr>)) = Inr 0 \<and>
   1000000000 + spec_slice_hz 300000000 16 \<le> (20 - 0) * spec_slice_hz 300000000 16 \<and>
   mp_machine_pwm_duty_set_ns 100 pwm0A 5 (hw_regs 4095 65534) =
     (Inr (), (hw_regs 4095 65534)(0 := \<lparr>enabled = True, div_reg = 4095, cc_reg = 0, top_reg = 65534\<rparr>)) \<and>
   mp_machine_pwm_duty_get_ns 100 pwm0A
     ((hw_regs 4095 65534)(0 := \<lparr>enabled = True, div_reg = 4095, cc_reg = 0, top_reg = 65534\<rparr>)) =
     Inl DivisionByZero"
  by (simp add: spec_slice_hz_def
        mp_machine_pwm_duty_set_ns_def mp_machine_pwm_duty_get_ns_def chan_cc_def
        hw_regs_def pwm0A_def PWM_CHAN_A_def
        pwm_set_chan_level_def pwm_set_enabled_def PWM_CH0_CC_A_LSB_def Let_def)

text \<open>
  C6, amended.  For fixed registers with \<open>div16 \<ge> 1\<close>, a system clock below \<open>2^28\<close> Hz
  and \<open>sliceHz = floor(16 * source_hz / div16) \<ge> 1\<close>, for every \<open>n \<ge> 0\<close> whose compare
  value is below \<open>2^32\<close> (every \<open>n\<close> when \<open>div16 \<ge> 16\<close>) and for which
  \<open>mp_machine_pwm_duty_set_ns\<close> succeeds, \<open>mp_machine_pwm_duty_get_ns\<close> then returns
  a value \<open>r\<close> with \<open>r \<le> n\<close> and \<open>(n - r) * sliceHz < 10^9 + sliceHz\<close>: the value read
  back never exceeds \<open>n\<close> and is short of it by less than one compare unit plus one
  nanosecond.
\<close>

theorem duty_ns_round_trip:
  assumes "div_reg (hw (slice self)) \<noteq> 0" "0 \<le> sint duty_ns" "unat source_hz < 2 ^ 28"
    and "spec_compare_ns (nat (sint duty_ns))
           (spec_slice_hz (unat source_hz) (unat (div_reg (hw (slice self))))) < 2 ^ 32"
    and "1 \<le> spec_slice_hz (unat source_hz) (unat (div_reg (hw (slice self))))"
    and "mp_machine_pwm_duty_set_ns source_hz self duty_ns hw = (Inr (), hw')"
  shows "\<exists>r. mp_machine_pwm_duty_get_ns source_hz self hw' = Inr r \<and>
             unat r \<le> nat (sint duty_ns) \<and>
             (nat (sint duty_ns) - unat r) *
                spec_slice_hz (unat source_hz) (unat (div_reg (hw (slice self))))
               < 1000000000 + spec_slice_hz (unat source_hz) (unat (div_reg (hw (slice self))))"
proof -
  define n where "n = nat (sint duty_ns)"
  define shz where "shz = spec_slice_hz (unat source_hz) (unat (div_reg (hw (slice self))))"
  define slice_hz where "slice_hz = 16 * source_hz div div_reg (hw (slice self))"
  define cc where "cc = (ucast ((scast duty_ns :: uint64_t) * ucast slice_hz div 1000000000) :: uint32_t)"
  have sh: "unat slice_hz = shz"
    unfolding slice_hz_def shz_def by (rule slice_hz_value [OF assms(3)])
  with assms(5) have shnz: "slice_hz \<noteq> 0"
    unfolding shz_def [symmetric] by (metis unat_0 not_one_le_zero)
  have cc: "unat cc = n * shz div 1000000000"
    unfolding cc_def slice_hz_def n_def shz_def
    using duty_set_ns_cc [OF assms(2,3,4)] by (simp add: spec_compare_ns_def)
  note r = duty_set_ns_cases [where hw = hw and self = self and source_hz = source_hz
                                and duty_ns = duty_ns, OF assms(1), folded slice_hz_def, folded cc_def]
  from assms(6) have ok: "\<not> cc > 65535"
    and hw': "hw' = pwm_set_enabled (slice self) True
                      (pwm_set_chan_level (slice self) (channel self) cc hw)"
    unfolding r by (auto split: if_splits)
  from ok have c16: "unat cc \<le> 65535" by (simp add: word_less_nat_alt)
  then have stored: "chan_cc (channel self) (cc_reg (hw' (slice self))) = cc"
    unfolding hw' by (simp add: duty_set_ns_written(1) and_ffff_id)
  have dv: "div_reg (hw' (slice self)) = div_reg (hw (slice self))"
    unfolding hw' by (rule duty_set_ns_written(3))
  have get: "mp_machine_pwm_duty_get_ns source_hz self hw' =
               Inr ((ucast cc :: uint64_t) * 1000000000 div ucast slice_hz)"
    using assms(1) shnz
    by (simp add: mp_machine_pwm_duty_get_ns_def Let_def dv stored slice_hz_def [symmetric])
  have "unat (ucast cc :: uint64_t) * unat (1000000000 :: uint64_t) \<le> 65535 * 1000000000"
    using c16 by (simp add: unat_ucast_32_64)
  then have "unat (ucast cc :: uint64_t) * unat (1000000000 :: uint64_t) < 2 ^ 64"
    by simp
  then have "unat ((ucast cc :: uint64_t) * 1000000000) = unat cc * 1000000000"
    using unat_mult_exact_64 [of "ucast cc" 1000000000] by (simp add: unat_ucast_32_64)
  then have val: "unat ((ucast cc :: uint64_t) * 1000000000 div ucast slice_hz) =
                   (n * shz div 1000000000) * 1000000000 div shz"
    by (simp add: unat_div unat_ucast_32_64 sh cc)
  from assms(5) have pos: "0 < shz" unfolding shz_def by simp
  from floor_round_trip [OF pos, of 1000000000 n] val get
  show ?thesis unfolding n_def [symmetric] shz_def [symmetric] by simp
qed

text \<open>The theorem at 125 MHz with \<open>div16 = 17\<close> and a duty of 17 ns.\<close>

theorem duty_ns_round_trip_witness:
  "div_reg (hw_regs 17 65534 (slice pwm0A)) \<noteq> 0 \<and> 0 \<le> sint (17 :: mp_int_t) \<and>
   unat (125000000 :: uint32_t) < 2 ^ 28 \<and>
   spec_compare_ns (nat (sint (17 :: mp_int_t)))
     (spec_slice_hz (unat (125000000 :: uint32_t)) (unat (div_reg (hw_regs 17 65534 (slice pwm0A)))))
     < 2 ^ 32 \<and>
   1 \<le> spec_slice_hz (unat (125000000 :: uint32_t)) (unat (div_reg (hw_regs 17 65534 (slice pwm0A)))) \<and>
   mp_machine_pwm_duty_set_ns 125000000 pwm0A 17 (hw_regs 17 65534) =
     (Inr (), (hw_regs 17 65534)(0 := \<lparr>enabled = True, div_reg = 17, cc_reg = 1, top_reg = 65534\<rparr>)) \<and>
   (\<exists>r. mp_machine_pwm_duty_get_ns 125000000 pwm0A
           ((hw_regs 17 65534)(0 := \<lparr>enabled = True, div_reg = 17, cc_reg = 1, top_reg = 65534\<rparr>)) = Inr r \<and>
        unat r \<le> 17 \<and> (17 - unat r) * 117647058 < 1000000000 + 117647058)"
proof -
  have a: "div_reg (hw_regs 17 65534 (slice pwm0A)) \<noteq> 0" by (simp add: hw_regs_def)
  have b: "0 \<le> sint (17 :: mp_int_t)" by simp
  have c: "unat (125000000 :: uint32_t) < 2 ^ 28" by simp
  have sh: "spec_slice_hz (unat (125000000 :: uint32_t)) (unat (div_reg (hw_regs 17 65534 (slice pwm0A))))
              = 117647058"
    by (simp add: spec_slice_hz_def hw_regs_def)
  have d: "spec_compare_ns (nat (sint (17 :: mp_int_t)))
     (spec_slice_hz (unat (125000000 :: uint32_t)) (unat (div_reg (hw_regs 17 65534 (slice pwm0A)))))
     < 2 ^ 32"
    unfolding sh by (simp add: spec_compare_ns_def)
  have e: "1 \<le> spec_slice_hz (unat (125000000 :: uint32_t)) (unat (div_reg (hw_regs 17 65534 (slice pwm0A))))"
    unfolding sh by simp
  have f: "mp_machine_pwm_duty_set_ns 125000000 pwm0A 17 (hw_regs 17 65534) =
     (Inr (), (hw_regs 17 65534)(0 := \<lparr>enabled = True, div_reg = 17, cc_reg = 1, top_reg = 65534\<rparr>))"
    by (simp add: mp_machine_pwm_duty_set_ns_def hw_regs_def pwm0A_def PWM_CHAN_A_def
        pwm_set_chan_level_def pwm_set_enabled_def PWM_CH0_CC_A_LSB_def Let_def)
  from duty_ns_round_trip [where hw = "hw_regs 17 65534" and self = pwm0A
         and source_hz = 125000000 and duty_ns = 17, OF a b c d e f]
  have "\<exists>r. mp_machine_pwm_duty_get_ns 125000000 pwm0A
           ((hw_regs 17 65534)(0 := \<lparr>enabled = True, div_reg = 17, cc_reg = 1, top_reg = 65534\<rparr>)) = Inr r \<and>
        unat r \<le> 17 \<and> (17 - unat r) * 117647058 < 1000000000 + 117647058"
    unfolding sh by simp
  with a b c d e f show ?thesis by blast
qed

end
